theory Spec2Isabelle
  imports Main
begin

section \<open>Data model\<close>

text \<open>
  Modelled from the spec: the classes \<^verbatim>\<open>Transaction\<close> and \<^verbatim>\<open>Block\<close>
  (\<^verbatim>\<open>transaction.py\<close> and \<^verbatim>\<open>block.py\<close> are not part of the sources). Their fields are
  those of the spec's data model, in the order in which \<^verbatim>\<open>blockchain.py\<close> passes them:
  \<^verbatim>\<open>Transaction(sender, recipient, signature, amount)\<close> and
  \<^verbatim>\<open>Block(index, previous_hash, transactions, proof, timestamp)\<close>. Indices, proofs,
  timestamps and amounts are Python integers (unbounded), hence \<open>int\<close>; the rounding of
  floating-point amounts is not modelled. The field \<^verbatim>\<open>proof\<close> of a block is called
  \<open>block_proof\<close>, the Python name being a keyword here.
\<close>

record transaction =
  sender :: string
  recipient :: string
  signature :: string
  amount :: int

record block =
  index :: int
  previous_hash :: string
  transactions :: "transaction list"
  block_proof :: int
  timestamp :: int

text \<open>
  A block and a transaction as they arrive from a peer: mappings with the keys
  \<^verbatim>\<open>tx['sender']\<close>, \<^verbatim>\<open>tx['recipient']\<close>, \<^verbatim>\<open>tx['signature']\<close>, \<^verbatim>\<open>tx['amount']\<close> and
  \<^verbatim>\<open>block['index']\<close>, \<^verbatim>\<open>block['previous_hash']\<close>, \<^verbatim>\<open>block['transactions']\<close>,
  \<^verbatim>\<open>block['proof']\<close>, \<^verbatim>\<open>block['timestamp']\<close>.
\<close>

record tx_dict =
  d_sender :: string
  d_recipient :: string
  d_signature :: string
  d_amount :: int

record block_dict =
  d_index :: int
  d_previous_hash :: string
  d_transactions :: "tx_dict list"
  d_proof :: int
  d_timestamp :: int

text \<open>JSON values: what is serialised for hashing and what is posted to a peer.\<close>

datatype json =
  JStr string
| JInt int
| JList "json list"
| JDict "(string \<times> json) list"

text \<open>
  The library functions the code calls and the signing collaborator:
  \<^verbatim>\<open>sha256(s).hexdigest()\<close>, \<^verbatim>\<open>json.dumps(v, sort_keys=True).encode()\<close> and
  \<^verbatim>\<open>Wallet.verify_transaction(tx)\<close>. They are parameters of the model.
\<close>

record lib =
  sha256_hexdigest :: "string \<Rightarrow> string"
  json_dumps :: "json \<Rightarrow> string"
  wallet_verify_transaction :: "transaction \<Rightarrow> bool"

datatype py_error = IndexError | IOError | EOFError | UnpicklingError

text \<open>The answer of a peer to a POST: a connection error, or a response with its status code.\<close>

datatype response = ConnectionError | Response nat

text \<open>The answer of a peer to \<^verbatim>\<open>GET /chain\<close>: a connection error, or its chain as mappings.\<close>

datatype chain_response = GetConnectionError | GetJson "block_dict list"

text \<open>
  The ledger object. The peer set \<^verbatim>\<open>self.__peer_nodes\<close> is held as the list of its
  elements in the order in which Python iterates over it; the operations on it keep it
  free of duplicates.
\<close>

record blockchain =
  chain :: "block list"
  open_transactions :: "transaction list"
  public_key :: "string option"
  peer_nodes :: "string list"
  node_id :: string
  resolve_conflicts :: bool

text \<open>The content of the snapshot file: the keys \<^verbatim>\<open>'chain'\<close>, \<^verbatim>\<open>'ot'\<close> and \<^verbatim>\<open>'pn'\<close>.\<close>

record snapshot =
  snap_chain :: "block list"
  snap_ot :: "transaction list"
  snap_pn :: "string list"

text \<open>
  What opening, reading and unpickling the snapshot file gives: an exception
  (\<^verbatim>\<open>IOError\<close> when the file is missing or cannot be opened or read,
  \<^verbatim>\<open>EOFError\<close> or \<^verbatim>\<open>UnpicklingError\<close> when its content is no pickle), or the mapping
  that was saved.
\<close>

datatype file_read = ReadRaises py_error | ReadOk snapshot

definition MINING_REWARD :: int where
  "MINING_REWARD = 10"

section \<open>Hashing (\<^verbatim>\<open>utility/hash_util.py\<close>)\<close>

definition hash_string_256 :: "lib \<Rightarrow> string \<Rightarrow> string" where
  "hash_string_256 L s = sha256_hexdigest L s"

text \<open>
  Modelled from the spec: \<^verbatim>\<open>Transaction.to_ordered_dict\<close> (\<^verbatim>\<open>transaction.py\<close> is not
  part of the sources). The spec has the digest depend on sender, recipient, amount and
  signature of every transaction.
\<close>

definition to_ordered_dict :: "transaction \<Rightarrow> json" where
  "to_ordered_dict tx =
     JDict [(''sender'', JStr (sender tx)), (''recipient'', JStr (recipient tx)),
            (''amount'', JInt (amount tx)), (''signature'', JStr (signature tx))]"

definition hash_block :: "lib \<Rightarrow> block \<Rightarrow> string" where
  "hash_block L b =
     (let hashable_block =
        JDict [(''index'', JInt (index b)),
               (''previous_hash'', JStr (previous_hash b)),
               (''transactions'', JList (map to_ordered_dict (transactions b))),
               (''proof'', JInt (block_proof b)),
               (''timestamp'', JInt (timestamp b))]
      in hash_string_256 L (json_dumps L hashable_block))"

section \<open>Verification\<close>

text \<open>
  Modelled from the spec: \<^verbatim>\<open>Verification.valid_proof\<close> (\<^verbatim>\<open>utility/verification.py\<close> is
  not part of the sources). The guess is the digest of the canonical encoding of the
  transactions, the previous hash and the proof; it is valid iff its first two characters
  are both \<^verbatim>\<open>'0'\<close>.
\<close>

definition valid_proof :: "lib \<Rightarrow> transaction list \<Rightarrow> string \<Rightarrow> int \<Rightarrow> bool" where
  "valid_proof L txs last_hash prf =
     (let guess = json_dumps L (JList [JList (map to_ordered_dict txs), JStr last_hash, JInt prf]);
          guess_hash = hash_string_256 L guess
      in take 2 guess_hash = ''00'')"

text \<open>
  Modelled from the spec: \<^verbatim>\<open>Verification.verify_transaction\<close>. A transaction is valid
  iff the balance of its sender is at least its amount, or its sender is \<^verbatim>\<open>'MINING'\<close>.
\<close>

definition verify_transaction :: "transaction \<Rightarrow> (string \<Rightarrow> int) \<Rightarrow> bool" where
  "verify_transaction tx get_balance_fn =
     (amount tx \<le> get_balance_fn (sender tx) \<or> sender tx = ''MINING'')"

text \<open>
  Modelled from the spec: \<^verbatim>\<open>Verification.verify_chain\<close>. Every block after the first
  must name the hash of the block before it and carry a valid proof over all of its
  transactions but the last; the first violation gives false.
\<close>

fun verify_links :: "lib \<Rightarrow> block \<Rightarrow> block list \<Rightarrow> bool" where
  "verify_links L prev [] = True"
| "verify_links L prev (b # bs) =
     (if previous_hash b \<noteq> hash_block L prev then False
      else if \<not> valid_proof L (butlast (transactions b)) (previous_hash b) (block_proof b) then False
      else verify_links L b bs)"

definition verify_chain :: "lib \<Rightarrow> block list \<Rightarrow> bool" where
  "verify_chain L c = (case c of [] \<Rightarrow> True | g # bs \<Rightarrow> verify_links L g bs)"

section \<open>The ledger (\<^verbatim>\<open>blockchain.py\<close>)\<close>

subsection \<open>Construction and the snapshot\<close>

definition genesis_block :: block where
  "genesis_block =
     \<lparr>index = 0, previous_hash = '''', transactions = [], block_proof = 100, timestamp = 0\<rparr>"

text \<open>
  \<^verbatim>\<open>load_data\<close>: an \<^verbatim>\<open>IOError\<close> or \<^verbatim>\<open>IndexError\<close> is caught and leaves the object as
  it is; any other exception leaves the function.
\<close>

definition load_data :: "file_read \<Rightarrow> blockchain \<Rightarrow> py_error + blockchain" where
  "load_data f b =
     (case f of
        ReadOk file_content \<Rightarrow>
          Inr (b\<lparr>chain := snap_chain file_content,
                 open_transactions := snap_ot file_content,
                 peer_nodes := remdups (snap_pn file_content)\<rparr>)
      | ReadRaises e \<Rightarrow> (if e = IOError \<or> e = IndexError then Inr b else Inl e))"

definition init :: "file_read \<Rightarrow> string option \<Rightarrow> string \<Rightarrow> py_error + blockchain" where
  "init f pk nid =
     load_data f
       \<lparr>chain = [genesis_block], open_transactions = [], public_key = pk,
        peer_nodes = [], node_id = nid, resolve_conflicts = False\<rparr>"

text \<open>
  \<^verbatim>\<open>save_data\<close> writes the snapshot below to the file and catches the \<^verbatim>\<open>IOError\<close> of a
  failed write: it never changes the object, so the operations leave it out of the state
  they return.
\<close>

definition save_data :: "blockchain \<Rightarrow> snapshot" where
  "save_data b =
     \<lparr>snap_chain = chain b, snap_ot = open_transactions b, snap_pn = peer_nodes b\<rparr>"

subsection \<open>Proof of work\<close>

text \<open>
  The loop \<^verbatim>\<open>while not valid_proof(...): proof += 1\<close> has no bound: not returning is the
  value \<open>None\<close>.
\<close>

partial_function (option) proof_search :: "(int \<Rightarrow> bool) \<Rightarrow> int \<Rightarrow> int option" where
  "proof_search ok prf = (if ok prf then Some prf else proof_search ok (prf + 1))"

declare proof_search.simps [code]

definition proof_of_work :: "lib \<Rightarrow> blockchain \<Rightarrow> (py_error + int) option" where
  "proof_of_work L b =
     (if chain b = [] then Some (Inl IndexError)
      else
        let last_block = last (chain b);
            last_hash = hash_block L last_block
        in case proof_search (valid_proof L (open_transactions b) last_hash) 0 of
             None \<Rightarrow> None
           | Some prf \<Rightarrow> Some (Inr prf))"

subsection \<open>Balance\<close>

text \<open>The two \<^verbatim>\<open>reduce\<close> calls of \<^verbatim>\<open>get_balance\<close>, for a participant that is given.\<close>

definition balance_of :: "blockchain \<Rightarrow> string \<Rightarrow> int" where
  "balance_of b participant =
     (let tx_sender =
            map (\<lambda>blk. map amount (filter (\<lambda>tx. sender tx = participant) (transactions blk)))
                (chain b);
          open_tx_sender =
            map amount (filter (\<lambda>tx. sender tx = participant) (open_transactions b));
          tx_sender = tx_sender @ [open_tx_sender];
          amount_sent =
            foldl (\<lambda>tx_sum amt. if length amt \<noteq> 0 then tx_sum + sum_list amt else tx_sum + 0)
                  0 tx_sender;
          tx_recipient =
            map (\<lambda>blk. map amount (filter (\<lambda>tx. recipient tx = participant) (transactions blk)))
                (chain b);
          amount_received =
            foldl (\<lambda>tx_sum amt. if length amt \<noteq> 0 then tx_sum + sum_list amt else tx_sum + 0)
                  0 tx_recipient
      in amount_received - amount_sent)"

definition get_balance :: "blockchain \<Rightarrow> string option \<Rightarrow> int option" where
  "get_balance b sender_arg =
     (case sender_arg of
        None \<Rightarrow> (case public_key b of
                   None \<Rightarrow> None
                 | Some participant \<Rightarrow> Some (balance_of b participant))
      | Some participant \<Rightarrow> Some (balance_of b participant))"

subsection \<open>Transaction admission\<close>

text \<open>
  The relay loop of \<^verbatim>\<open>add_transaction\<close>: false as soon as a peer answers 400 or 500, a
  peer that cannot be connected is skipped, true when the loop ends.
\<close>

fun broadcast_transaction :: "(string \<Rightarrow> json \<Rightarrow> response) \<Rightarrow> json \<Rightarrow> string list \<Rightarrow> bool" where
  "broadcast_transaction post body [] = True"
| "broadcast_transaction post body (node # nodes) =
     (case post (''http://'' @ node @ ''/broadcast-transaction'') body of
        ConnectionError \<Rightarrow> broadcast_transaction post body nodes
      | Response status_code \<Rightarrow>
          if status_code = 400 \<or> status_code = 500 then False
          else broadcast_transaction post body nodes)"

definition add_transaction ::
  "(string \<Rightarrow> json \<Rightarrow> response) \<Rightarrow> blockchain \<Rightarrow> string \<Rightarrow> string \<Rightarrow> string \<Rightarrow> int \<Rightarrow> bool
     \<Rightarrow> blockchain \<times> bool" where
  "add_transaction post b recipient_arg sender_arg signature_arg amount_arg is_receiving =
     (let tx = \<lparr>sender = sender_arg, recipient = recipient_arg,
                signature = signature_arg, amount = amount_arg\<rparr>
      in if verify_transaction tx (balance_of b) then
           let b1 = b\<lparr>open_transactions := open_transactions b @ [tx]\<rparr>
           in if \<not> is_receiving then
                (b1, broadcast_transaction post
                       (JDict [(''sender'', JStr sender_arg), (''recipient'', JStr recipient_arg),
                               (''amount'', JInt amount_arg), (''signature'', JStr signature_arg)])
                       (peer_nodes b1))
              else (b1, True)
         else (b, False))"

subsection \<open>Mining\<close>

definition tx_json :: "transaction \<Rightarrow> json" where
  "tx_json tx =
     JDict [(''sender'', JStr (sender tx)), (''recipient'', JStr (recipient tx)),
            (''signature'', JStr (signature tx)), (''amount'', JInt (amount tx))]"

definition block_json :: "block \<Rightarrow> json" where
  "block_json blk =
     JDict [(''index'', JInt (index blk)),
            (''previous_hash'', JStr (previous_hash blk)),
            (''transactions'', JList (map tx_json (transactions blk))),
            (''proof'', JInt (block_proof blk)),
            (''timestamp'', JInt (timestamp blk))]"

text \<open>
  The relay loop of \<^verbatim>\<open>mine_block\<close>: a 400 or 500 ends the call with \<^verbatim>\<open>None\<close>, a 409
  sets \<^verbatim>\<open>resolve_conflicts\<close> and the loop goes on.
\<close>

fun broadcast_block ::
  "(string \<Rightarrow> json \<Rightarrow> response) \<Rightarrow> block \<Rightarrow> string list \<Rightarrow> blockchain
     \<Rightarrow> blockchain \<times> block option" where
  "broadcast_block post blk [] b = (b, Some blk)"
| "broadcast_block post blk (node # nodes) b =
     (case post (''http://'' @ node @ ''/broadcast-block'') (JDict [(''block'', block_json blk)]) of
        ConnectionError \<Rightarrow> broadcast_block post blk nodes b
      | Response status_code \<Rightarrow>
          if status_code = 400 \<or> status_code = 500 then (b, None)
          else if status_code = 409 then
            broadcast_block post blk nodes (b\<lparr>resolve_conflicts := True\<rparr>)
          else broadcast_block post blk nodes b)"

text \<open>
  \<^verbatim>\<open>mine_block\<close>; \<open>now\<close> is the time the new block is stamped with. The result is
  \<open>None\<close> when the proof search does not return, an error when the chain is empty
  (\<^verbatim>\<open>self.__chain[-1]\<close>), or the ledger after the call and the value returned.
\<close>

definition mine_block ::
  "lib \<Rightarrow> (string \<Rightarrow> json \<Rightarrow> response) \<Rightarrow> int \<Rightarrow> blockchain
     \<Rightarrow> (py_error + blockchain \<times> block option) option" where
  "mine_block L post now b =
     (case public_key b of
        None \<Rightarrow> Some (Inr (b, None))
      | Some pk \<Rightarrow>
          if chain b = [] then Some (Inl IndexError)
          else
            let last_block = last (chain b);
                hashed_block = hash_block L last_block
            in (case proof_of_work L b of
                  None \<Rightarrow> None
                | Some (Inl e) \<Rightarrow> Some (Inl e)
                | Some (Inr prf) \<Rightarrow>
                    let reward_transaction =
                          \<lparr>sender = ''MINING'', recipient = pk, signature = '''',
                           amount = MINING_REWARD\<rparr>;
                        copied_transactions = open_transactions b
                    in if \<not> list_all (wallet_verify_transaction L) copied_transactions
                       then Some (Inr (b, None))
                       else
                         let copied_transactions = copied_transactions @ [reward_transaction];
                             blk = \<lparr>index = int (length (chain b)), previous_hash = hashed_block,
                                    transactions = copied_transactions, block_proof = prf,
                                    timestamp = now\<rparr>;
                             b1 = b\<lparr>chain := chain b @ [blk]\<rparr>;
                             b2 = b1\<lparr>open_transactions := []\<rparr>
                         in Some (Inr (broadcast_block post blk (peer_nodes b2) b2))))"

subsection \<open>Accepting a block of a peer\<close>

definition transaction_of_dict :: "tx_dict \<Rightarrow> transaction" where
  "transaction_of_dict tx =
     \<lparr>sender = d_sender tx, recipient = d_recipient tx,
      signature = d_signature tx, amount = d_amount tx\<rparr>"

definition block_of_dict :: "block_dict \<Rightarrow> block" where
  "block_of_dict blk =
     \<lparr>index = d_index blk, previous_hash = d_previous_hash blk,
      transactions = map transaction_of_dict (d_transactions blk),
      block_proof = d_proof blk, timestamp = d_timestamp blk\<rparr>"

text \<open>The comparison of a pending transaction with an incoming one, field by field.\<close>

definition tx_matches :: "transaction \<Rightarrow> tx_dict \<Rightarrow> bool" where
  "tx_matches open_tx incoming_tx =
     (sender open_tx = d_sender incoming_tx \<and> recipient open_tx = d_recipient incoming_tx
      \<and> amount open_tx = d_amount incoming_tx \<and> signature open_tx = d_signature incoming_tx)"

text \<open>
  The inner loop over the copy \<^verbatim>\<open>stored_transactions\<close>: \<^verbatim>\<open>list.remove\<close> takes the first
  element equal to \<^verbatim>\<open>open_tx\<close> out of the pool, and its \<^verbatim>\<open>ValueError\<close> for an element
  that is gone is caught (\<open>remove1\<close> leaves the list as it is then). Transactions are
  values here; were they compared by identity, the loop would take out the same elements,
  since every pending transaction that matches is removed either way.
\<close>

fun remove_matching :: "tx_dict \<Rightarrow> transaction list \<Rightarrow> transaction list \<Rightarrow> transaction list" where
  "remove_matching incoming_tx [] open_txs = open_txs"
| "remove_matching incoming_tx (open_tx # stored) open_txs =
     remove_matching incoming_tx stored
       (if tx_matches open_tx incoming_tx then remove1 open_tx open_txs else open_txs)"

fun remove_incoming :: "tx_dict list \<Rightarrow> transaction list \<Rightarrow> transaction list \<Rightarrow> transaction list" where
  "remove_incoming [] stored open_txs = open_txs"
| "remove_incoming (incoming_tx # rest) stored open_txs =
     remove_incoming rest stored (remove_matching incoming_tx stored open_txs)"

definition add_block :: "lib \<Rightarrow> blockchain \<Rightarrow> block_dict \<Rightarrow> py_error + blockchain \<times> bool" where
  "add_block L b blk =
     (let txs = map transaction_of_dict (d_transactions blk);
          proof_is_valid = valid_proof L (butlast txs) (d_previous_hash blk) (d_proof blk)
      in if chain b = [] then Inl IndexError
         else
           let hashes_match = (hash_block L (last (chain b)) = d_previous_hash blk)
           in if \<not> proof_is_valid \<or> \<not> hashes_match then Inr (b, False)
              else
                let converted_block =
                      \<lparr>index = d_index blk, previous_hash = d_previous_hash blk,
                       transactions = txs, block_proof = d_proof blk,
                       timestamp = d_timestamp blk\<rparr>;
                    b1 = b\<lparr>chain := chain b @ [converted_block]\<rparr>;
                    stored_transactions = open_transactions b1
                in Inr (b1\<lparr>open_transactions :=
                              remove_incoming (d_transactions blk) stored_transactions
                                (open_transactions b1)\<rparr>, True))"

subsection \<open>Conflict resolution\<close>

fun resolve_loop ::
  "lib \<Rightarrow> (string \<Rightarrow> chain_response) \<Rightarrow> string list \<Rightarrow> block list \<Rightarrow> bool
     \<Rightarrow> block list \<times> bool" where
  "resolve_loop L get [] winner_chain replace = (winner_chain, replace)"
| "resolve_loop L get (node # nodes) winner_chain replace =
     (case get (''http://'' @ node @ ''/chain'') of
        GetConnectionError \<Rightarrow> resolve_loop L get nodes winner_chain replace
      | GetJson dicts \<Rightarrow>
          let node_chain = map block_of_dict dicts
          in if length winner_chain < length node_chain \<and> verify_chain L node_chain
             then resolve_loop L get nodes node_chain True
             else resolve_loop L get nodes winner_chain replace)"

definition resolve :: "lib \<Rightarrow> (string \<Rightarrow> chain_response) \<Rightarrow> blockchain \<Rightarrow> blockchain \<times> bool" where
  "resolve L get b =
     (case resolve_loop L get (peer_nodes b) (chain b) False of
        (winner_chain, replace) \<Rightarrow>
          let b1 = b\<lparr>resolve_conflicts := False\<rparr>;
              b2 = b1\<lparr>chain := winner_chain\<rparr>;
              b3 = (if replace then b2\<lparr>open_transactions := []\<rparr> else b2)
          in (b3, replace))"

subsection \<open>The peer set\<close>

definition add_peer_node :: "blockchain \<Rightarrow> string \<Rightarrow> blockchain" where
  "add_peer_node b node =
     b\<lparr>peer_nodes := (if node \<in> set (peer_nodes b) then peer_nodes b else peer_nodes b @ [node])\<rparr>"

definition remove_peer_node :: "blockchain \<Rightarrow> string \<Rightarrow> blockchain" where
  "remove_peer_node b node = b\<lparr>peer_nodes := removeAll node (peer_nodes b)\<rparr>"

section \<open>The balance as the specification words it\<close>

text \<open>
  The sum of all amounts a participant received across the mined blocks, and the sum of
  the amounts a participant sent in a list of transactions.
\<close>

definition amounts_received :: "block list \<Rightarrow> string \<Rightarrow> int" where
  "amounts_received c p =
     sum_list (map amount (filter (\<lambda>tx. recipient tx = p) (concat (map transactions c))))"

definition amounts_sent :: "transaction list \<Rightarrow> string \<Rightarrow> int" where
  "amounts_sent txs p = sum_list (map amount (filter (\<lambda>tx. sender tx = p) txs))"

definition spec_balance :: "blockchain \<Rightarrow> string \<Rightarrow> int" where
  "spec_balance b p =
     amounts_received (chain b) p
       - (amounts_sent (concat (map transactions (chain b))) p
          + amounts_sent (open_transactions b) p)"

section \<open>An instance of the library for evaluation\<close>

text \<open>
  A small digest and a small serialisation, to run the operations on concrete ledgers:
  the serialisation of a value is as long as the value weighs, and the digest depends on
  the length of what it is given modulo 5. A signature passes when it is not empty.
\<close>

primrec json_weight :: "json \<Rightarrow> nat" where
  "json_weight (JStr s) = length s"
| "json_weight (JInt i) = nat \<bar>i\<bar>"
| "json_weight (JList js) = sum_list (map json_weight js)"
| "json_weight (JDict kvs) =
     sum_list (map (\<lambda>kv. length (fst kv) + snd kv) (map (map_prod id json_weight) kvs))"

definition demo_sha :: "string \<Rightarrow> string" where
  "demo_sha s =
     (let r = length s mod 5
      in if r = 3 then ''00e3'' else if r = 0 then ''7a10'' else if r = 1 then ''0b41''
         else if r = 2 then ''c052'' else ''9d04'')"

definition demo_lib :: lib where
  "demo_lib =
     \<lparr>sha256_hexdigest = demo_sha,
      json_dumps = (\<lambda>j. replicate (json_weight j) CHR ''x''),
      wallet_verify_transaction = (\<lambda>tx. signature tx \<noteq> '''')\<rparr>"

text \<open>
  A ledger for the balances: a block that grants 10 to A, a block in which A sends 3 to B
  and the miner M is rewarded, and an open transaction of 2 from A to B.
\<close>

definition balance_demo :: blockchain where
  "balance_demo =
     \<lparr>chain =
        [genesis_block,
         \<lparr>index = 1, previous_hash = ''h0'',
          transactions = [\<lparr>sender = ''MINING'', recipient = ''A'', signature = '''', amount = 10\<rparr>],
          block_proof = 1, timestamp = 1\<rparr>,
         \<lparr>index = 2, previous_hash = ''h1'',
          transactions = [\<lparr>sender = ''A'', recipient = ''B'', signature = ''sA'', amount = 3\<rparr>,
                          \<lparr>sender = ''MINING'', recipient = ''M'', signature = '''', amount = 10\<rparr>],
          block_proof = 2, timestamp = 2\<rparr>],
      open_transactions = [\<lparr>sender = ''A'', recipient = ''B'', signature = ''sA2'', amount = 2\<rparr>],
      public_key = Some ''M'', peer_nodes = [], node_id = ''n1'', resolve_conflicts = False\<rparr>"

section \<open>Runs of the ledger\<close>

text \<open>
  The calls a node receives during its life, each with what the outside world answers
  during the call: the responses of the peers, the time, the block a peer broadcasts.
  \<open>Restart\<close> constructs the ledger anew from the snapshot the last operation saved.
\<close>

datatype event =
  AddTransaction "string \<Rightarrow> json \<Rightarrow> response" string string string int bool
| MineBlock "string \<Rightarrow> json \<Rightarrow> response" int
| AddBlock block_dict
| Resolve "string \<Rightarrow> chain_response"
| AddPeerNode string
| RemovePeerNode string
| Restart "string option" string

text \<open>The ledger after a call; \<open>None\<close> when the call raises or does not return.\<close>

fun exec :: "lib \<Rightarrow> blockchain \<Rightarrow> event \<Rightarrow> blockchain option" where
  "exec L b (AddTransaction post recipient_arg sender_arg signature_arg amount_arg is_receiving) =
     Some (fst (add_transaction post b recipient_arg sender_arg signature_arg amount_arg
                  is_receiving))"
| "exec L b (MineBlock post now) =
     (case mine_block L post now b of
        Some (Inr (b', r)) \<Rightarrow> Some b'
      | _ \<Rightarrow> None)"
| "exec L b (AddBlock blk) =
     (case add_block L b blk of Inr (b', r) \<Rightarrow> Some b' | Inl e \<Rightarrow> None)"
| "exec L b (Resolve get) = Some (fst (resolve L get b))"
| "exec L b (AddPeerNode node) = Some (add_peer_node b node)"
| "exec L b (RemovePeerNode node) = Some (remove_peer_node b node)"
| "exec L b (Restart pk nid) =
     (case init (ReadOk (save_data b)) pk nid of Inr b' \<Rightarrow> Some b' | Inl e \<Rightarrow> None)"

fun run :: "lib \<Rightarrow> blockchain \<Rightarrow> event list \<Rightarrow> blockchain option" where
  "run L b [] = Some b"
| "run L b (ev # evs) = (case exec L b ev of None \<Rightarrow> None | Some b' \<Rightarrow> run L b' evs)"

text \<open>The ledger a node starts with when there is no snapshot file.\<close>

definition fresh :: "string option \<Rightarrow> string \<Rightarrow> blockchain" where
  "fresh pk nid =
     \<lparr>chain = [genesis_block], open_transactions = [], public_key = pk,
      peer_nodes = [], node_id = nid, resolve_conflicts = False\<rparr>"

text \<open>An event that leaves the building of the chain to \<^verbatim>\<open>mine_block\<close>.\<close>

fun mining_only :: "event \<Rightarrow> bool" where
  "mining_only (AddBlock blk) = False"
| "mining_only (Resolve get) = False"
| "mining_only ev = True"

text \<open>Every block's \<^verbatim>\<open>index\<close> is its position in the chain.\<close>

definition index_is_position :: "block list \<Rightarrow> bool" where
  "index_is_position c = (map index c = map int [0..<length c])"

text \<open>The chains a call of \<^verbatim>\<open>resolve\<close> fetches and reconstructs, in the order of the peers.\<close>

fun fetched_chains :: "(string \<Rightarrow> chain_response) \<Rightarrow> string list \<Rightarrow> block list list" where
  "fetched_chains get [] = []"
| "fetched_chains get (node # nodes) =
     (case get (''http://'' @ node @ ''/chain'') of
        GetConnectionError \<Rightarrow> fetched_chains get nodes
      | GetJson dicts \<Rightarrow> map block_of_dict dicts # fetched_chains get nodes)"

text \<open>
  What a peer sends carries the indices a local block would have: a broadcast block
  declares the length of the local chain as its index, and the chains fetched by
  \<^verbatim>\<open>resolve\<close> have every index at its position.
\<close>

fun peer_indices_ok :: "blockchain \<Rightarrow> event \<Rightarrow> bool" where
  "peer_indices_ok b (AddBlock blk) = (d_index blk = int (length (chain b)))"
| "peer_indices_ok b (Resolve get) = list_all index_is_position (fetched_chains get (peer_nodes b))"
| "peer_indices_ok b ev = True"

fun run_peer_indices_ok :: "lib \<Rightarrow> blockchain \<Rightarrow> event list \<Rightarrow> bool" where
  "run_peer_indices_ok L b [] = True"
| "run_peer_indices_ok L b (ev # evs) =
     (peer_indices_ok b ev \<and>
      (case exec L b ev of None \<Rightarrow> True | Some b' \<Rightarrow> run_peer_indices_ok L b' evs))"

section \<open>Concrete ledgers and answers of the outside world\<close>

definition no_connection :: "string \<Rightarrow> json \<Rightarrow> response" where
  "no_connection url body = ConnectionError"

definition rejecting_peer :: "string \<Rightarrow> json \<Rightarrow> response" where
  "rejecting_peer url body = Response 400"

text \<open>
  A miner M without peers that admits a transaction of 0 to B, mines, admits a transaction
  of 4 to B and mines again, and the ledger this gives under \<open>demo_lib\<close>.
\<close>

definition mined_events :: "event list" where
  "mined_events =
     [AddTransaction no_connection ''B'' ''M'' ''sM'' 0 False, MineBlock no_connection 5,
      AddTransaction no_connection ''B'' ''M'' ''sM'' 4 False, MineBlock no_connection 9]"

definition mined_chain :: "block list" where
  "mined_chain =
     [genesis_block,
      \<lparr>index = 1, previous_hash = ''9d04'',
       transactions = [\<lparr>sender = ''M'', recipient = ''B'', signature = ''sM'', amount = 0\<rparr>,
                       \<lparr>sender = ''MINING'', recipient = ''M'', signature = '''', amount = 10\<rparr>],
       block_proof = 0, timestamp = 5\<rparr>,
      \<lparr>index = 2, previous_hash = ''7a10'',
       transactions = [\<lparr>sender = ''M'', recipient = ''B'', signature = ''sM'', amount = 4\<rparr>,
                       \<lparr>sender = ''MINING'', recipient = ''M'', signature = '''', amount = 10\<rparr>],
       block_proof = 1, timestamp = 9\<rparr>]"

definition mined_demo :: blockchain where
  "mined_demo =
     \<lparr>chain = mined_chain, open_transactions = [], public_key = Some ''M'',
      peer_nodes = [], node_id = ''n1'', resolve_conflicts = False\<rparr>"


text \<open>
  A node with two pending transactions, and two blocks a peer may broadcast to it: one
  that holds the first pending transaction and is valid on top of the genesis block, and
  the same block with another previous hash.
\<close>

definition pending_demo :: blockchain where
  "pending_demo =
     \<lparr>chain = [genesis_block],
      open_transactions = [\<lparr>sender = ''A'', recipient = ''B'', signature = ''sA'', amount = 0\<rparr>,
                           \<lparr>sender = ''C'', recipient = ''B'', signature = ''sC'', amount = 0\<rparr>],
      public_key = Some ''M'', peer_nodes = [], node_id = ''n1'', resolve_conflicts = False\<rparr>"

definition incoming_demo :: block_dict where
  "incoming_demo =
     \<lparr>d_index = 1, d_previous_hash = ''9d04'',
      d_transactions = [\<lparr>d_sender = ''A'', d_recipient = ''B'', d_signature = ''sA'', d_amount = 0\<rparr>,
                        \<lparr>d_sender = ''MINING'', d_recipient = ''P'', d_signature = '''',
                         d_amount = 10\<rparr>],
      d_proof = 0, d_timestamp = 7\<rparr>"

definition tampered_demo :: block_dict where
  "tampered_demo = incoming_demo\<lparr>d_previous_hash := ''ffff''\<rparr>"

text \<open>
  A node with a peer that rejects what is relayed to it; A holds 10 from the first block.
\<close>

definition relay_demo :: blockchain where
  "relay_demo =
     \<lparr>chain =
        [genesis_block,
         \<lparr>index = 1, previous_hash = ''h0'',
          transactions = [\<lparr>sender = ''MINING'', recipient = ''A'', signature = '''', amount = 10\<rparr>],
          block_proof = 1, timestamp = 1\<rparr>],
      open_transactions = [], public_key = Some ''A'', peer_nodes = [''p1''],
      node_id = ''n1'', resolve_conflicts = False\<rparr>"

text \<open>The mapping a peer serves for a block of its chain.\<close>

definition dict_of_transaction :: "transaction \<Rightarrow> tx_dict" where
  "dict_of_transaction tx =
     \<lparr>d_sender = sender tx, d_recipient = recipient tx, d_signature = signature tx,
      d_amount = amount tx\<rparr>"

definition dict_of_block :: "block \<Rightarrow> block_dict" where
  "dict_of_block blk =
     \<lparr>d_index = index blk, d_previous_hash = previous_hash blk,
      d_transactions = map dict_of_transaction (transactions blk),
      d_proof = block_proof blk, d_timestamp = timestamp blk\<rparr>"

text \<open>
  Two peers: the first serves a chain of two blocks whose last proof is wrong, the second
  the chain of three blocks mined above. The local node has the genesis block, a pending
  transaction and the flag set.
\<close>

definition unproved_chain :: "block list" where
  "unproved_chain = [genesis_block, (mined_chain ! 1)\<lparr>block_proof := 1\<rparr>]"

definition peers_demo :: "string \<Rightarrow> chain_response" where
  "peers_demo url =
     (if url = ''http://p1/chain'' then GetJson (map dict_of_block unproved_chain)
      else if url = ''http://p2/chain'' then GetJson (map dict_of_block mined_chain)
      else GetConnectionError)"

definition conflict_demo :: blockchain where
  "conflict_demo =
     \<lparr>chain = [genesis_block],
      open_transactions = [\<lparr>sender = ''C'', recipient = ''B'', signature = ''sC'', amount = 0\<rparr>],
      public_key = Some ''M'', peer_nodes = [''p1'', ''p2''], node_id = ''n1'',
      resolve_conflicts = True\<rparr>"

text \<open>A node whose only peer cannot be connected.\<close>

definition lonely_demo :: blockchain where
  "lonely_demo = conflict_demo\<lparr>peer_nodes := [''p3'']\<rparr>"

text \<open>
  A block a peer broadcasts with the index 7: it names the hash of the genesis block and
  carries a proof that is valid for its transactions but the last.
\<close>

definition far_block_demo :: block_dict where
  "far_block_demo =
     \<lparr>d_index = 7, d_previous_hash = ''9d04'',
      d_transactions = [\<lparr>d_sender = ''MINING'', d_recipient = ''P'', d_signature = '''',
                         d_amount = 10\<rparr>],
      d_proof = 4, d_timestamp = 3\<rparr>"

text \<open>The ledger after a valid block of a peer and a block mined on top of it.\<close>

definition indexed_demo :: blockchain where
  "indexed_demo =
     \<lparr>chain =
        [genesis_block,
         block_of_dict incoming_demo,
         \<lparr>index = 2, previous_hash = ''c052'',
          transactions = [\<lparr>sender = ''MINING'', recipient = ''M'', signature = '''', amount = 10\<rparr>],
          block_proof = 4, timestamp = 9\<rparr>],
      open_transactions = [], public_key = Some ''M'', peer_nodes = [], node_id = ''n1'',
      resolve_conflicts = False\<rparr>"

section \<open>Properties\<close>

subsection \<open>The balance\<close>

lemma reduce_sums:
  "foldl (\<lambda>tx_sum amt. if length amt \<noteq> 0 then tx_sum + sum_list amt else tx_sum + 0) z xss
     = z + sum_list (concat xss)"
  for z :: int
  by (induction xss arbitrary: z) auto

lemma amounts_per_block:
  "concat (map (\<lambda>blk. map amount (filter P (transactions blk))) c)
     = map amount (filter P (concat (map transactions c)))"
  by (induction c) auto

lemma balance_of_spec: "balance_of b p = spec_balance b p"
  unfolding balance_of_def Let_def reduce_sums
  by (simp add: spec_balance_def amounts_received_def amounts_sent_def amounts_per_block)

text \<open>
  C8: for every participant \<open>p\<close>, \<^verbatim>\<open>get_balance(p)\<close> is the sum of the amounts \<open>p\<close>
  received across the mined blocks, minus the sum of the amounts \<open>p\<close> sent across the
  mined blocks and the open transactions. Called without a participant, it is that
  balance of the local public key, and \<^verbatim>\<open>None\<close> when there is no key.
\<close>

theorem get_balance_spec:
  "get_balance b (Some p) = Some (spec_balance b p)
   \<and> get_balance b None = map_option (spec_balance b) (public_key b)"
  by (simp add: get_balance_def balance_of_spec split: option.splits)

theorem get_balance_spec_witness:
  "get_balance balance_demo (Some ''A'') = Some 5
   \<and> get_balance balance_demo (Some ''B'') = Some 3
   \<and> get_balance balance_demo None = Some 10
   \<and> spec_balance balance_demo ''A'' = 5"
  using get_balance_spec [of balance_demo "''A''"] get_balance_spec [of balance_demo "''B''"]
  by (simp add: spec_balance_def amounts_received_def amounts_sent_def balance_demo_def
      genesis_block_def)

subsection \<open>The proof search\<close>

lemma proof_search_sound:
  assumes "proof_search ok s = Some q"
  shows "ok q \<and> s \<le> q"
proof (rule proof_search.raw_induct [where P = "\<lambda>ok s q. ok q \<and> s \<le> q", OF _ assms])
  fix search :: "(int \<Rightarrow> bool) \<Rightarrow> int \<Rightarrow> int option" and ok p q
  assume IH: "\<And>ok s q. search ok s = Some q \<Longrightarrow> ok q \<and> s \<le> q"
    and step: "(if ok p then Some p else search ok (p + 1)) = Some q"
  show "ok q \<and> p \<le> q"
  proof (cases "ok p")
    case True
    with step show ?thesis by simp
  next
    case False
    with step have "search ok (p + 1) = Some q" by simp
    from IH [OF this] show ?thesis by simp
  qed
qed


subsection \<open>Verification of a chain\<close>

lemma verify_links_append:
  "verify_links L g (bs @ [blk]) =
     (verify_links L g bs \<and> previous_hash blk = hash_block L (last (g # bs))
      \<and> valid_proof L (butlast (transactions blk)) (previous_hash blk) (block_proof blk))"
  by (induction bs arbitrary: g) auto

lemma verify_chain_append:
  assumes "c \<noteq> []"
  shows "verify_chain L (c @ [blk]) =
     (verify_chain L c \<and> previous_hash blk = hash_block L (last c)
      \<and> valid_proof L (butlast (transactions blk)) (previous_hash blk) (block_proof blk))"
  using assms by (cases c) (simp_all add: verify_chain_def verify_links_append)

lemma verify_chain_nth:
  "verify_chain L c =
     (\<forall>i. 0 < i \<and> i < length c \<longrightarrow>
        previous_hash (c ! i) = hash_block L (c ! (i - 1))
        \<and> valid_proof L (butlast (transactions (c ! i))) (previous_hash (c ! i))
              (block_proof (c ! i)))"
  (is "_ = (\<forall>i. 0 < i \<and> i < length c \<longrightarrow> ?Q c i)")
proof (induction c rule: rev_induct)
  case Nil
  then show ?case by (simp add: verify_chain_def)
next
  case (snoc x xs)
  show ?case
  proof (cases "xs = []")
    case True
    then show ?thesis by (simp add: verify_chain_def)
  next
    case False
    have old: "?Q (xs @ [x]) i = ?Q xs i" if "0 < i" "i < length xs" for i
    proof -
      from that have "i - 1 < length xs" by simp
      with that show ?thesis by (simp add: nth_append)
    qed
    have new: "?Q (xs @ [x]) (length xs) =
        (previous_hash x = hash_block L (last xs)
         \<and> valid_proof L (butlast (transactions x)) (previous_hash x) (block_proof x))"
      using False by (simp add: nth_append last_conv_nth)
    have "(\<forall>i. 0 < i \<and> i < length (xs @ [x]) \<longrightarrow> ?Q (xs @ [x]) i)
        = ((\<forall>i. 0 < i \<and> i < length xs \<longrightarrow> ?Q (xs @ [x]) i) \<and> ?Q (xs @ [x]) (length xs))"
      using False by (auto simp: less_Suc_eq)
    also have "\<dots> = ((\<forall>i. 0 < i \<and> i < length xs \<longrightarrow> ?Q xs i) \<and> ?Q (xs @ [x]) (length xs))"
      using old by blast
    finally show ?thesis
      unfolding new verify_chain_append [OF False] snoc.IH by blast
  qed
qed

subsection \<open>The relay of a mined block\<close>

lemma broadcast_block_frame:
  "chain (fst (broadcast_block post blk nodes b)) = chain b
   \<and> open_transactions (fst (broadcast_block post blk nodes b)) = open_transactions b
   \<and> peer_nodes (fst (broadcast_block post blk nodes b)) = peer_nodes b
   \<and> public_key (fst (broadcast_block post blk nodes b)) = public_key b"
  by (induction nodes arbitrary: b) (auto split: response.splits)

subsection \<open>Mining\<close>

text \<open>What a call of \<^verbatim>\<open>mine_block\<close> that returns has done to the ledger.\<close>

lemma mine_block_result:
  assumes "mine_block L post now b = Some (Inr (b', r))"
  shows "(b' = b \<and> r = None)
       \<or> (\<exists>pk prf. public_key b = Some pk \<and> chain b \<noteq> []
            \<and> valid_proof L (open_transactions b) (hash_block L (last (chain b))) prf
            \<and> chain b' = chain b @
                 [\<lparr>index = int (length (chain b)),
                   previous_hash = hash_block L (last (chain b)),
                   transactions = open_transactions b @
                     [\<lparr>sender = ''MINING'', recipient = pk, signature = '''',
                       amount = MINING_REWARD\<rparr>],
                   block_proof = prf, timestamp = now\<rparr>]
            \<and> open_transactions b' = [] \<and> peer_nodes b' = peer_nodes b
            \<and> public_key b' = public_key b)"
proof (cases "public_key b")
  case None
  with assms show ?thesis by (simp add: mine_block_def)
next
  case (Some pk)
  show ?thesis
  proof (cases "chain b = []")
    case True
    with assms Some show ?thesis by (simp add: mine_block_def)
  next
    case False
    from assms Some False obtain p where
      search: "proof_search (valid_proof L (open_transactions b) (hash_block L (last (chain b)))) 0
                 = Some p"
      by (auto simp: mine_block_def proof_of_work_def Let_def split: option.splits)
    from proof_search_sound [OF search]
    have valid: "valid_proof L (open_transactions b) (hash_block L (last (chain b))) p"
      by simp
    show ?thesis
    proof (cases "list_all (wallet_verify_transaction L) (open_transactions b)")
      case False
      with assms Some \<open>chain b \<noteq> []\<close> search show ?thesis
        by (simp add: mine_block_def proof_of_work_def Let_def)
    next
      case True
      define blk where "blk =
        \<lparr>index = int (length (chain b)), previous_hash = hash_block L (last (chain b)),
         transactions = open_transactions b @
           [\<lparr>sender = ''MINING'', recipient = pk, signature = '''', amount = MINING_REWARD\<rparr>],
         block_proof = p, timestamp = now\<rparr>"
      define b2 where "b2 = b\<lparr>chain := chain b @ [blk], open_transactions := []\<rparr>"
      from assms Some \<open>chain b \<noteq> []\<close> search True
      have "broadcast_block post blk (peer_nodes b2) b2 = (b', r)"
        by (simp add: mine_block_def proof_of_work_def Let_def blk_def b2_def)
      then have "b' = fst (broadcast_block post blk (peer_nodes b2) b2)" by simp
      with broadcast_block_frame [of post blk "peer_nodes b2" b2]
      have "chain b' = chain b @ [blk]" "open_transactions b' = []"
        "peer_nodes b' = peer_nodes b" "public_key b' = public_key b"
        by (simp_all add: b2_def)
      with Some \<open>chain b \<noteq> []\<close> valid show ?thesis
        unfolding blk_def by blast
    qed
  qed
qed

lemma mine_block_verify_chain:
  assumes "mine_block L post now b = Some (Inr (b', r))" and "verify_chain L (chain b)"
  shows "verify_chain L (chain b')"
  using mine_block_result [OF assms(1)] assms(2)
  by (auto simp: verify_chain_append)

lemma add_transaction_chain:
  "chain (fst (add_transaction post b r s sg a rcv)) = chain b
   \<and> peer_nodes (fst (add_transaction post b r s sg a rcv)) = peer_nodes b"
  by (simp add: add_transaction_def Let_def)

lemma restart_chain:
  "exec L b (Restart pk nid) = Some b' \<Longrightarrow> chain b' = chain b"
  by (auto simp: init_def load_data_def save_data_def)

lemma exec_mining_only_verify_chain:
  assumes "mining_only ev" and "exec L b ev = Some b'" and "verify_chain L (chain b)"
  shows "verify_chain L (chain b')"
proof (cases ev)
  case (AddTransaction post r s sg a rcv)
  with assms show ?thesis by (auto simp: add_transaction_chain)
next
  case (MineBlock post now)
  with assms(2) obtain r where "mine_block L post now b = Some (Inr (b', r))"
    by (auto split: option.splits sum.splits)
  from mine_block_verify_chain [OF this assms(3)] show ?thesis .
next
  case (Restart pk nid)
  with assms restart_chain [of L b pk nid b'] show ?thesis by simp
qed (use assms in \<open>auto simp: add_peer_node_def remove_peer_node_def\<close>)

lemma run_mining_only_verify_chain:
  assumes "list_all mining_only evs" and "run L b evs = Some b'" and "verify_chain L (chain b)"
  shows "verify_chain L (chain b')"
  using assms
proof (induction evs arbitrary: b)
  case Nil
  then show ?case by simp
next
  case (Cons ev evs)
  from Cons.prems(2) obtain b1 where ex: "exec L b ev = Some b1" and rest: "run L b1 evs = Some b'"
    by (auto split: option.splits)
  from Cons.prems(1) have "mining_only ev" "list_all mining_only evs" by simp_all
  from exec_mining_only_verify_chain [OF this(1) ex Cons.prems(3)]
  have "verify_chain L (chain b1)" .
  from Cons.IH [OF \<open>list_all mining_only evs\<close> rest this] show ?case .
qed

lemma init_no_file: "init (ReadRaises IOError) pk nid = Inr (fresh pk nid)"
  by (simp add: init_def load_data_def fresh_def)

text \<open>
  C1: in every ledger built from the genesis block (a construction without snapshot) by
  calls among which only \<^verbatim>\<open>mine_block\<close> extends the chain, the chain passes
  \<^verbatim>\<open>verify_chain\<close>: every block at a position \<open>i > 0\<close> names the hash of the block at
  \<open>i - 1\<close> and carries a valid proof over all of its transactions but the last.
\<close>

theorem mined_chain_verifies:
  assumes "init (ReadRaises IOError) pk nid = Inr b0"
    and "list_all mining_only evs"
    and "run L b0 evs = Some b"
  shows "verify_chain L (chain b)
       \<and> (\<forall>i. 0 < i \<and> i < length (chain b) \<longrightarrow>
             previous_hash (chain b ! i) = hash_block L (chain b ! (i - 1))
             \<and> valid_proof L (butlast (transactions (chain b ! i)))
                   (previous_hash (chain b ! i)) (block_proof (chain b ! i)))"
proof -
  from assms(1) have "b0 = fresh pk nid" by (simp add: init_no_file)
  then have "verify_chain L (chain b0)" by (simp add: fresh_def verify_chain_def)
  from run_mining_only_verify_chain [OF assms(2) assms(3) this]
  have "verify_chain L (chain b)" .
  then show ?thesis using verify_chain_nth [of L "chain b"] by blast
qed

lemma mined_events_run: "run demo_lib (fresh (Some ''M'') ''n1'') mined_events = Some mined_demo"
  by code_simp

theorem mined_chain_verifies_witness:
  "init (ReadRaises IOError) (Some ''M'') ''n1'' = Inr (fresh (Some ''M'') ''n1'')
   \<and> run demo_lib (fresh (Some ''M'') ''n1'') mined_events = Some mined_demo
   \<and> length (chain mined_demo) = 3
   \<and> verify_chain demo_lib (chain mined_demo)
   \<and> previous_hash (chain mined_demo ! 2) = hash_block demo_lib (chain mined_demo ! 1)
   \<and> valid_proof demo_lib (butlast (transactions (chain mined_demo ! 2)))
        (previous_hash (chain mined_demo ! 2)) (block_proof (chain mined_demo ! 2))"
proof -
  have ev: "list_all mining_only mined_events" by (simp add: mined_events_def)
  have len: "length (chain mined_demo) = 3" by (simp add: mined_demo_def mined_chain_def)
  from mined_chain_verifies [OF init_no_file ev mined_events_run]
  have v: "verify_chain demo_lib (chain mined_demo)"
    and nth: "\<And>i. 0 < i \<Longrightarrow> i < length (chain mined_demo) \<Longrightarrow>
      previous_hash (chain mined_demo ! i) = hash_block demo_lib (chain mined_demo ! (i - 1))
      \<and> valid_proof demo_lib (butlast (transactions (chain mined_demo ! i)))
            (previous_hash (chain mined_demo ! i)) (block_proof (chain mined_demo ! i))"
    by blast+
  from nth [of 2] len
  have "previous_hash (chain mined_demo ! 2) = hash_block demo_lib (chain mined_demo ! 1)
      \<and> valid_proof demo_lib (butlast (transactions (chain mined_demo ! 2)))
            (previous_hash (chain mined_demo ! 2)) (block_proof (chain mined_demo ! 2))"
    by auto
  with v len init_no_file [of "Some ''M''" "''n1''"] mined_events_run show ?thesis by blast
qed





text \<open>
  When the snapshot file is missing or cannot be opened or read (\<^verbatim>\<open>open\<close> or
  \<^verbatim>\<open>read\<close> raises \<^verbatim>\<open>IOError\<close>), the construction does not fail and gives the genesis
  block, an empty pool and an empty peer set.
\<close>

lemma init_without_snapshot:
  "init (ReadRaises IOError) pk nid =
     Inr \<lparr>chain = [\<lparr>index = 0, previous_hash = '''', transactions = [], block_proof = 100,
                     timestamp = 0\<rparr>],
          open_transactions = [], public_key = pk, peer_nodes = [], node_id = nid,
          resolve_conflicts = False\<rparr>"
  by (simp add: init_def load_data_def genesis_block_def)

text \<open>
  C9 says that the construction does not fail when the snapshot file is missing or
  unreadable, and gives the genesis block, an empty pool and an empty peer set. The code
  does not do this for a file that opens and cannot be unpickled: an empty or truncated
  file makes \<^verbatim>\<open>pickle.loads\<close> raise \<^verbatim>\<open>EOFError\<close>, other bytes that are no pickle make
  it raise \<^verbatim>\<open>UnpicklingError\<close>; \<^verbatim>\<open>load_data\<close> catches \<^verbatim>\<open>IOError\<close> and \<^verbatim>\<open>IndexError\<close>
  only, and the exception leaves \<^verbatim>\<open>__init__\<close>: no ledger is constructed.
\<close>

theorem init_corrupt_snapshot_raises:
  "init (ReadRaises EOFError) pk nid = Inl EOFError
   \<and> init (ReadRaises UnpicklingError) pk nid = Inl UnpicklingError"
  by (simp add: init_def load_data_def)


subsection \<open>Accepting a block of a peer\<close>










lemma tx_matches_eq: "tx_matches t inc = (t = transaction_of_dict inc)"
  by (cases t) (auto simp: tx_matches_def transaction_of_dict_def)


text \<open>
  C4: \<^verbatim>\<open>add_block\<close> returns false and leaves the ledger as it is when the proof check
  over all incoming transactions but the last fails, or when the previous hash the
  incoming block declares is not the hash of the local tail block.
\<close>

theorem add_block_rejects:
  assumes "chain b \<noteq> []"
    and "\<not> valid_proof L (butlast (map transaction_of_dict (d_transactions blk)))
             (d_previous_hash blk) (d_proof blk)
         \<or> d_previous_hash blk \<noteq> hash_block L (last (chain b))"
  shows "add_block L b blk = Inr (b, False)"
  using assms by (auto simp: add_block_def Let_def)

theorem add_block_rejects_witness:
  "add_block demo_lib pending_demo tampered_demo = Inr (pending_demo, False)"
proof -
  have ne: "chain pending_demo \<noteq> []" by (simp add: pending_demo_def)
  have "d_previous_hash tampered_demo \<noteq> hash_block demo_lib (last (chain pending_demo))"
    by code_simp
  then have "\<not> valid_proof demo_lib (butlast (map transaction_of_dict (d_transactions tampered_demo)))
             (d_previous_hash tampered_demo) (d_proof tampered_demo)
         \<or> d_previous_hash tampered_demo \<noteq> hash_block demo_lib (last (chain pending_demo))"
    by (rule disjI2)
  from add_block_rejects [OF ne this] show ?thesis .
qed



subsection \<open>Transaction admission\<close>

lemma broadcast_transaction_rejected:
  "(\<not> broadcast_transaction post body nodes) =
     (\<exists>node\<in>set nodes.
        post (''http://'' @ node @ ''/broadcast-transaction'') body = Response 400
        \<or> post (''http://'' @ node @ ''/broadcast-transaction'') body = Response 500)"
  by (induction nodes) (auto split: response.splits)

text \<open>
  C3, as the code has it: whenever \<^verbatim>\<open>add_transaction\<close> returns false, the chain and
  the peer set are as before the call. When the false comes from the failed verification
  of the transaction, the whole ledger is unchanged; when it comes from a peer that
  answers the relayed transaction with 400 or 500, the open pool is the old pool with the
  transaction appended.
\<close>

theorem add_transaction_false:
  assumes "add_transaction post b r s sg a rcv = (b', False)"
  shows "chain b' = chain b \<and> peer_nodes b' = peer_nodes b
       \<and> (if verify_transaction \<lparr>sender = s, recipient = r, signature = sg, amount = a\<rparr>
               (balance_of b)
           then \<not> rcv
              \<and> (\<exists>node\<in>set (peer_nodes b).
                    post (''http://'' @ node @ ''/broadcast-transaction'')
                      (JDict [(''sender'', JStr s), (''recipient'', JStr r),
                              (''amount'', JInt a), (''signature'', JStr sg)]) = Response 400
                    \<or> post (''http://'' @ node @ ''/broadcast-transaction'')
                      (JDict [(''sender'', JStr s), (''recipient'', JStr r),
                              (''amount'', JInt a), (''signature'', JStr sg)]) = Response 500)
              \<and> open_transactions b' =
                  open_transactions b @ [\<lparr>sender = s, recipient = r, signature = sg, amount = a\<rparr>]
           else b' = b)"
proof (cases "verify_transaction \<lparr>sender = s, recipient = r, signature = sg, amount = a\<rparr>
                (balance_of b)")
  case False
  with assms show ?thesis by (simp add: add_transaction_def)
next
  case True
  define body where "body = JDict [(''sender'', JStr s), (''recipient'', JStr r),
                              (''amount'', JInt a), (''signature'', JStr sg)]"
  from assms True have b': "b' = b\<lparr>open_transactions :=
      open_transactions b @ [\<lparr>sender = s, recipient = r, signature = sg, amount = a\<rparr>]\<rparr>"
    by (auto simp: add_transaction_def Let_def split: if_splits)
  from assms True have "\<not> rcv" and "\<not> broadcast_transaction post body (peer_nodes b)"
    by (auto simp: add_transaction_def Let_def body_def split: if_splits)
  with broadcast_transaction_rejected [of post body "peer_nodes b"] True b'
  show ?thesis unfolding body_def by simp
qed

theorem add_transaction_false_witness:
  "add_transaction rejecting_peer relay_demo ''B'' ''A'' ''sA'' 3 False =
     (relay_demo\<lparr>open_transactions :=
        [\<lparr>sender = ''A'', recipient = ''B'', signature = ''sA'', amount = 3\<rparr>]\<rparr>, False)
   \<and> verify_transaction \<lparr>sender = ''A'', recipient = ''B'', signature = ''sA'', amount = 3\<rparr>
        (balance_of relay_demo)"
proof -
  have run: "add_transaction rejecting_peer relay_demo ''B'' ''A'' ''sA'' 3 False =
     (relay_demo\<lparr>open_transactions :=
        [\<lparr>sender = ''A'', recipient = ''B'', signature = ''sA'', amount = 3\<rparr>]\<rparr>, False)"
    by code_simp
  have ok: "verify_transaction \<lparr>sender = ''A'', recipient = ''B'', signature = ''sA'', amount = 3\<rparr>
        (balance_of relay_demo)"
    by code_simp
  from add_transaction_false [OF run] run ok show ?thesis by simp
qed

text \<open>
  C3 as it is stated fails: the peer of \<open>relay_demo\<close> rejects the relayed transaction,
  \<^verbatim>\<open>add_transaction\<close> returns false, and the transaction stays in the open pool.
\<close>

theorem add_transaction_false_counterexample:
  "snd (add_transaction rejecting_peer relay_demo ''B'' ''A'' ''sA'' 3 False) = False
   \<and> open_transactions relay_demo = []
   \<and> open_transactions (fst (add_transaction rejecting_peer relay_demo ''B'' ''A'' ''sA'' 3 False))
       = [\<lparr>sender = ''A'', recipient = ''B'', signature = ''sA'', amount = 3\<rparr>]"
  by code_simp

subsection \<open>Conflict resolution\<close>

text \<open>
  The loop of \<^verbatim>\<open>resolve\<close> sets \<^verbatim>\<open>replace\<close> exactly when a fetched chain is valid and
  longer than the chain it started with.
\<close>

lemma resolve_loop_replace:
  "snd (resolve_loop L get nodes w r) =
     (r \<or> (\<exists>c\<in>set (fetched_chains get nodes). length w < length c \<and> verify_chain L c))"
proof (induction nodes arbitrary: w r)
  case Nil
  then show ?case by simp
next
  case (Cons node nodes)
  show ?case
  proof (cases "get (''http://'' @ node @ ''/chain'')")
    case GetConnectionError
    then show ?thesis by (simp add: Cons.IH)
  next
    case (GetJson dicts)
    show ?thesis
    proof (cases "length w < length (map block_of_dict dicts)
                  \<and> verify_chain L (map block_of_dict dicts)")
      case True
      with GetJson show ?thesis by (auto simp: Cons.IH Let_def)
    next
      case False
      with GetJson show ?thesis by (auto simp: Cons.IH Let_def)
    qed
  qed
qed

text \<open>
  The winner is the chain the loop started with or a valid fetched chain that is longer,
  and no valid fetched chain is longer than the winner.
\<close>

lemma resolve_loop_winner:
  "(fst (resolve_loop L get nodes w r) = w
    \<or> (fst (resolve_loop L get nodes w r) \<in> set (fetched_chains get nodes)
        \<and> verify_chain L (fst (resolve_loop L get nodes w r))
        \<and> length w < length (fst (resolve_loop L get nodes w r))))
   \<and> length w \<le> length (fst (resolve_loop L get nodes w r))
   \<and> (\<forall>c\<in>set (fetched_chains get nodes).
         verify_chain L c \<longrightarrow> length c \<le> length (fst (resolve_loop L get nodes w r)))"
proof (induction nodes arbitrary: w r)
  case Nil
  then show ?case by simp
next
  case (Cons node nodes)
  show ?case
  proof (cases "get (''http://'' @ node @ ''/chain'')")
    case GetConnectionError
    then show ?thesis using Cons.IH [of w r] by simp
  next
    case (GetJson dicts)
    define nc where "nc = map block_of_dict dicts"
    show ?thesis
    proof (cases "length w < length nc \<and> verify_chain L nc")
      case True
      with GetJson have step: "resolve_loop L get (node # nodes) w r = resolve_loop L get nodes nc True"
        by (simp add: nc_def Let_def)
      from GetJson have f: "fetched_chains get (node # nodes) = nc # fetched_chains get nodes"
        by (simp add: nc_def)
      from Cons.IH [of nc True] True show ?thesis
        unfolding step f by auto
    next
      case False
      with GetJson have step: "resolve_loop L get (node # nodes) w r = resolve_loop L get nodes w r"
        by (auto simp: nc_def Let_def)
      from GetJson have f: "fetched_chains get (node # nodes) = nc # fetched_chains get nodes"
        by (simp add: nc_def)
      from Cons.IH [of w r] False show ?thesis
        unfolding step f by auto
    qed
  qed
qed

lemma resolve_result:
  "resolve L get b =
     (let w = fst (resolve_loop L get (peer_nodes b) (chain b) False);
          r = snd (resolve_loop L get (peer_nodes b) (chain b) False)
      in (if r then b\<lparr>resolve_conflicts := False, chain := w, open_transactions := []\<rparr>
          else b\<lparr>resolve_conflicts := False, chain := w\<rparr>, r))"
  by (simp add: resolve_def Let_def split: prod.splits)

text \<open>
  C10: when \<^verbatim>\<open>resolve\<close> returns false, the chain and the open pool (and the peers, the
  key and the node id) are as before the call; only \<^verbatim>\<open>resolve_conflicts\<close> may have
  changed, to false.
\<close>

theorem resolve_false_frame:
  assumes "resolve L get b = (b', False)"
  shows "b' = b\<lparr>resolve_conflicts := False\<rparr>
       \<and> chain b' = chain b \<and> open_transactions b' = open_transactions b"
proof -
  let ?loop = "resolve_loop L get (peer_nodes b) (chain b) False"
  from assms have r: "\<not> snd ?loop" and b': "b' = b\<lparr>resolve_conflicts := False, chain := fst ?loop\<rparr>"
    by (auto simp: resolve_result Let_def split: if_splits)
  from r resolve_loop_replace [of L get "peer_nodes b" "chain b" False]
  have none: "\<not> (\<exists>c\<in>set (fetched_chains get (peer_nodes b)).
                length (chain b) < length c \<and> verify_chain L c)"
    by simp
  with resolve_loop_winner [of L get "peer_nodes b" "chain b" False]
  have "fst ?loop = chain b" by blast
  with b' show ?thesis by simp
qed

theorem resolve_false_frame_witness:
  "resolve demo_lib peers_demo lonely_demo = (lonely_demo\<lparr>resolve_conflicts := False\<rparr>, False)
   \<and> resolve_conflicts lonely_demo"
proof -
  have run: "resolve demo_lib peers_demo lonely_demo
      = (fst (resolve demo_lib peers_demo lonely_demo), False)"
    by code_simp
  have flag: "resolve_conflicts lonely_demo" by code_simp
  from resolve_false_frame [OF run] have
    "fst (resolve demo_lib peers_demo lonely_demo) = lonely_demo\<lparr>resolve_conflicts := False\<rparr>"
    by simp
  with run flag show ?thesis by simp
qed



subsection \<open>The index of a block\<close>

lemma index_is_position_nth:
  "index_is_position c = (\<forall>i<length c. index (c ! i) = int i)"
  unfolding index_is_position_def by (subst list_eq_iff_nth_eq) simp

lemma index_is_position_append:
  "index_is_position (c @ [blk]) = (index_is_position c \<and> index blk = int (length c))"
  by (auto simp: index_is_position_def)

lemma add_block_result:
  assumes "add_block L b blk = Inr (b', r)"
  shows "(b' = b \<and> \<not> r) \<or> (r \<and> chain b' = chain b @ [block_of_dict blk])"
  using assms by (auto simp: add_block_def Let_def block_of_dict_def split: if_splits)

text \<open>
  Whatever the library, a block that \<^verbatim>\<open>add_block\<close> accepts enters the chain with the
  index its sender declared.
\<close>

lemma add_block_keeps_declared_index:
  assumes "add_block L b blk = Inr (b', True)"
  shows "index (last (chain b')) = d_index blk"
  using add_block_result [OF assms] by (auto simp: block_of_dict_def)

lemma exec_index_is_position:
  assumes "index_is_position (chain b)" and "peer_indices_ok b ev" and "exec L b ev = Some b'"
  shows "index_is_position (chain b')"
proof (cases ev)
  case (AddTransaction post r s sg a rcv)
  with assms show ?thesis by (auto simp: add_transaction_chain)
next
  case (MineBlock post now)
  with assms(3) obtain r where "mine_block L post now b = Some (Inr (b', r))"
    by (auto split: option.splits sum.splits)
  from mine_block_result [OF this] assms(1) show ?thesis
    by (auto simp: index_is_position_append)
next
  case (AddBlock blk)
  with assms(3) obtain r where "add_block L b blk = Inr (b', r)"
    by (auto split: sum.splits)
  from add_block_result [OF this] assms(1,2) AddBlock show ?thesis
    by (auto simp: index_is_position_append block_of_dict_def)
next
  case (Resolve get)
  with assms(3) have "chain b' = fst (resolve_loop L get (peer_nodes b) (chain b) False)"
    by (auto simp: resolve_result Let_def split: if_splits)
  with resolve_loop_winner [of L get "peer_nodes b" "chain b" False]
  have "chain b' = chain b \<or> chain b' \<in> set (fetched_chains get (peer_nodes b))" by auto
  with assms(1,2) Resolve show ?thesis by (auto simp: list_all_iff)
next
  case (AddPeerNode node)
  with assms show ?thesis by (auto simp: add_peer_node_def)
next
  case (RemovePeerNode node)
  with assms show ?thesis by (auto simp: remove_peer_node_def)
next
  case (Restart pk nid)
  with assms restart_chain [of L b pk nid b'] show ?thesis by simp
qed

lemma run_index_is_position:
  assumes "index_is_position (chain b)" and "run_peer_indices_ok L b evs" and "run L b evs = Some b'"
  shows "index_is_position (chain b')"
  using assms
proof (induction evs arbitrary: b)
  case Nil
  then show ?case by simp
next
  case (Cons ev evs)
  from Cons.prems(3) obtain b1 where ex: "exec L b ev = Some b1" and rest: "run L b1 evs = Some b'"
    by (auto split: option.splits)
  from Cons.prems(2) ex have ok: "peer_indices_ok b ev" and oks: "run_peer_indices_ok L b1 evs"
    by simp_all
  from exec_index_is_position [OF Cons.prems(1) ok ex] have "index_is_position (chain b1)" .
  from Cons.IH [OF this oks rest] show ?case .
qed

text \<open>
  C6, as the code has it: in every ledger reached from a construction without snapshot by
  \<^verbatim>\<open>add_transaction\<close>, \<^verbatim>\<open>mine_block\<close>, \<^verbatim>\<open>add_peer_node\<close>, \<^verbatim>\<open>remove_peer_node\<close>, restarts
  from the saved snapshot, \<^verbatim>\<open>add_block\<close> calls whose incoming block declares the length
  of the local chain as its index, and \<^verbatim>\<open>resolve\<close> calls whose fetched chains have every
  index at its position, the index of every block is its position in the chain.
\<close>

theorem reachable_index_is_position:
  assumes "init (ReadRaises IOError) pk nid = Inr b0"
    and "run_peer_indices_ok L b0 evs"
    and "run L b0 evs = Some b"
  shows "\<forall>i<length (chain b). index (chain b ! i) = int i"
proof -
  from assms(1) have "b0 = fresh pk nid" by (simp add: init_no_file)
  then have "index_is_position (chain b0)"
    by (simp add: fresh_def index_is_position_def genesis_block_def)
  from run_index_is_position [OF this assms(2) assms(3)] show ?thesis
    by (simp add: index_is_position_nth)
qed

theorem reachable_index_is_position_witness:
  "run demo_lib (fresh (Some ''M'') ''n1'') [AddBlock incoming_demo, MineBlock no_connection 9]
     = Some indexed_demo
   \<and> length (chain indexed_demo) = 3
   \<and> index (chain indexed_demo ! 1) = 1 \<and> index (chain indexed_demo ! 2) = 2"
proof -
  let ?evs = "[AddBlock incoming_demo, MineBlock no_connection 9]"
  have run: "run demo_lib (fresh (Some ''M'') ''n1'') ?evs = Some indexed_demo" by code_simp
  have ok: "run_peer_indices_ok demo_lib (fresh (Some ''M'') ''n1'') ?evs" by code_simp
  have len: "length (chain indexed_demo) = 3" by code_simp
  from reachable_index_is_position [OF init_no_file ok run] len
  have "index (chain indexed_demo ! 1) = int 1" "index (chain indexed_demo ! 2) = int 2"
    by simp_all
  with run len show ?thesis by simp
qed

text \<open>
  C6 as it is stated fails: \<^verbatim>\<open>add_block\<close> does not compare the index of the incoming
  block with the length of the chain. A fresh node that receives the block
  \<open>far_block_demo\<close> appends it, and the block at position 1 has the index 7.
\<close>

theorem reachable_index_counterexample:
  "init (ReadRaises IOError) (Some ''M'') ''n1'' = Inr (fresh (Some ''M'') ''n1'')
   \<and> map_option (\<lambda>b. map index (chain b))
        (run demo_lib (fresh (Some ''M'') ''n1'') [AddBlock far_block_demo]) = Some [0, 7]"
  by code_simp

end
